theory Spec2Isabelle
  imports Complex_Main
begin

section \<open>Values of the rendering engine\<close>

text \<open>
  The controller \<open>World\<close> composes objects of a 3D engine. Only what the controller
  reads or writes is modelled: a texture with its two wrap modes, a material with its
  constructor parameters, and the scene graph as a tree of objects. The engine numbers
  every material it creates; \<open>mid\<close> is that number, so two materials built from the same
  parameters are still two objects.
\<close>

datatype wrapping = RepeatWrapping | ClampToEdgeWrapping | MirroredRepeatWrapping

record texture =
  source :: string
  wrapS :: wrapping
  wrapT :: wrapping

record material =
  mid :: nat
  color :: nat
  transparent :: bool
  opacity :: rat
  map_texture :: "texture option"

text \<open>
  An object of the scene graph: its identity, whether it is an instance of \<open>Mesh\<close>, and
  its children. The tree itself is never changed by the controller; the properties the
  controller assigns (\<open>material\<close>, \<open>castShadow\<close>, \<open>receiveShadow\<close>) live in the
  state, keyed by \<open>ident\<close>.
\<close>

datatype object3d = Object3D (ident: nat) (isMesh: bool) (children: "object3d list")

text \<open>
  A JavaScript number, as far as \<open>mousemove\<close> needs it: a finite value, an infinity or
  NaN. Rounding of finite values and the sign of zero are not modelled.
\<close>

datatype jsnum = Finite rat | PosInfinity | NegInfinity | NaN

definition js_div :: "rat \<Rightarrow> rat \<Rightarrow> jsnum" where
  "js_div a b =
     (if b = 0 then (if a = 0 then NaN else if 0 < a then PosInfinity else NegInfinity)
      else Finite (a / b))"

fun js_neg :: "jsnum \<Rightarrow> jsnum" where
  "js_neg (Finite a) = Finite (- a)"
| "js_neg PosInfinity = NegInfinity"
| "js_neg NegInfinity = PosInfinity"
| "js_neg NaN = NaN"

text \<open>Multiplication by a positive finite constant and addition of a finite constant.\<close>

fun js_scale :: "jsnum \<Rightarrow> rat \<Rightarrow> jsnum" where
  "js_scale (Finite a) k = Finite (a * k)"
| "js_scale x k = x"

fun js_shift :: "jsnum \<Rightarrow> rat \<Rightarrow> jsnum" where
  "js_shift (Finite a) k = Finite (a + k)"
| "js_shift x k = x"

text \<open>The outcome of an asynchronous load: the promise is fulfilled or rejected.\<close>

datatype 'a settled = Fulfilled 'a | Rejected string

datatype log_entry = LogObject object3d | LogError string

section \<open>The controller state\<close>

text \<open>
  The fields of \<open>World\<close> that picking, texture application and model loading touch,
  followed by the part of the engine's heap they write: the \<open>material\<close> property and the
  shadow flags of every object, the children of the scene, the console, and the engine's
  material counter.
\<close>

record world =
  chair :: "object3d option"
  mouse :: "jsnum \<times> jsnum"
  target :: "object3d option"
  tempMaterial :: "material option"
  selectedMaterial :: material
  materialOf :: "nat \<Rightarrow> material"
  castShadow :: "nat \<Rightarrow> bool"
  receiveShadow :: "nat \<Rightarrow> bool"
  scene :: "object3d list"
  console :: "log_entry list"
  materialId :: nat

record mouse_event =
  clientX :: rat
  clientY :: rat

section \<open>Engine operations the controller calls\<close>

text \<open>
  \<open>new MeshPhongMaterial({ map: texture })\<close>: the other parameters keep their defaults.
  \<open>MeshPhongMaterial k texture\<close> is the object built when the engine's counter stands at
  \<open>k\<close>; creating it advances the counter.
\<close>

definition MeshPhongMaterial :: "nat \<Rightarrow> texture \<Rightarrow> material" where
  "MeshPhongMaterial k texture =
     \<lparr>mid = k, color = 0xffffff, transparent = False, opacity = 1, map_texture = Some texture\<rparr>"

definition newMeshPhongMaterial :: "texture \<Rightarrow> world \<Rightarrow> material \<times> world" where
  "newMeshPhongMaterial texture w =
     (MeshPhongMaterial (materialId w) texture, w\<lparr>materialId := Suc (materialId w)\<rparr>)"

text \<open>\<open>Object3D.traverse\<close>: the callback on the object itself, then on every child's subtree.\<close>

fun traverse :: "(object3d \<Rightarrow> 's \<Rightarrow> 's) \<Rightarrow> object3d \<Rightarrow> 's \<Rightarrow> 's" where
  "traverse callback (Object3D i m cs) s =
     fold (traverse callback) cs (callback (Object3D i m cs) s)"

text \<open>
  Modelled from the spec: \<open>Raycaster.intersectObjects\<close> belongs to the rendering
  engine and is not among the sources. Following the specification, the ray is tested
  against the listed objects themselves and not against their descendants, and the hits
  come back ordered by distance from the camera, nearest first. The argument \<open>ray\<close> is
  the engine's geometric test of one object against the current ray: the distances of
  its hits, none when the ray misses it.
\<close>

definition intersectObjects ::
    "(object3d \<Rightarrow> rat list) \<Rightarrow> object3d list \<Rightarrow> (rat \<times> object3d) list" where
  "intersectObjects ray objects =
     sort_key fst (concat (map (\<lambda>obj. map (\<lambda>d. (d, obj)) (ray obj)) objects))"

section \<open>The controller's methods\<close>

text \<open>
  \<open>loadModel\<close>: the promise of the model loader is given by \<open>loadAsync\<close>. On success
  the loaded scene is logged, every object of it is made a shadow caster and receiver,
  and the scene becomes \<open>chair\<close> and a child of the scene. A rejection is caught and
  logged, so the chain ends fulfilled.
\<close>

definition markShadows :: "object3d \<Rightarrow> world \<Rightarrow> world" where
  "markShadows o3 w =
     w\<lparr>castShadow := (castShadow w)(ident o3 := True),
       receiveShadow := (receiveShadow w)(ident o3 := True)\<rparr>"

definition loadModel :: "(string \<Rightarrow> object3d settled) \<Rightarrow> string \<Rightarrow> world \<Rightarrow> unit settled \<times> world" where
  "loadModel loadAsync url w =
     (case loadAsync url of
        Fulfilled obj \<Rightarrow>
          (let w1 = w\<lparr>console := console w @ [LogObject obj]\<rparr>;
               w2 = traverse markShadows obj w1
           in (Fulfilled (), w2\<lparr>chair := Some obj, scene := scene w2 @ [obj]\<rparr>))
      | Rejected e \<Rightarrow> (Fulfilled (), w\<lparr>console := console w @ [LogError e]\<rparr>))"

text \<open>
  The callback of \<open>updateTexture\<close>: its state is the local flag \<open>isUpated\<close> and the
  controller. At the first mesh one material is created for \<open>tempMaterial\<close>; at every
  mesh another one is created and assigned to the mesh.
\<close>

definition applyTexture :: "texture \<Rightarrow> object3d \<Rightarrow> bool \<times> world \<Rightarrow> bool \<times> world" where
  "applyTexture texture obj s =
     (if isMesh obj then
        (let (isUpated, w) = s;
             (isUpated1, w1) =
               (if \<not> isUpated then
                  (let (m, w') = newMeshPhongMaterial texture w
                   in (True, w'\<lparr>tempMaterial := Some m\<rparr>))
                else (isUpated, w));
             (m2, w2) = newMeshPhongMaterial texture w1
         in (isUpated1, w2\<lparr>materialOf := (materialOf w2)(ident obj := m2)\<rparr>))
      else s)"

text \<open>
  \<open>updateTexture\<close>: the promise of the texture loader has a \<open>then\<close> and no \<open>catch\<close>,
  so a rejection passes through and nothing of the callback runs.
\<close>

definition updateTexture :: "(string \<Rightarrow> texture settled) \<Rightarrow> string \<Rightarrow> world \<Rightarrow> unit settled \<times> world" where
  "updateTexture loadAsync url w =
     (case loadAsync url of
        Fulfilled loaded \<Rightarrow>
          (let texture = loaded\<lparr>wrapS := RepeatWrapping, wrapT := RepeatWrapping\<rparr>
           in (Fulfilled (),
               (case target w of
                  None \<Rightarrow> w
                | Some t \<Rightarrow> snd (traverse (applyTexture texture) t (False, w)))))
      | Rejected e \<Rightarrow> (Rejected e, w))"

text \<open>
  \<open>mousemove\<close>: \<open>clientWidth\<close> and \<open>clientHeight\<close> are read from the renderer's
  canvas, which is outside the model, and are passed in.
\<close>

definition mousemove :: "mouse_event \<Rightarrow> nat \<Rightarrow> nat \<Rightarrow> world \<Rightarrow> world" where
  "mousemove e clientWidth clientHeight w =
     w\<lparr>mouse :=
         (js_shift (js_scale (js_div (clientX e) (of_nat clientWidth)) 2) (- 1),
          js_shift (js_scale (js_neg (js_div (clientY e) (of_nat clientHeight))) 2) 1)\<rparr>"

definition restoreMaterial :: "world \<Rightarrow> world" where
  "restoreMaterial w =
     (case target w of
        None \<Rightarrow> w
      | Some t \<Rightarrow>
          (case tempMaterial w of
             None \<Rightarrow> w
           | Some m \<Rightarrow> w\<lparr>materialOf := (materialOf w)(ident t := m)\<rparr>))"

text \<open>
  \<open>click\<close>: \<open>setFromCamera\<close> stands for aiming the raycaster through the stored
  pointer coordinates with the camera as it is at this click; it yields the engine's
  test of a single object against that ray. The source reads and writes the \<open>material\<close>
  of the target through the casts \<open>as Mesh\<close> and \<open>as Material\<close>; accordingly every
  object has one material, and a saved material is never a falsy value.
\<close>

definition click :: "(jsnum \<times> jsnum \<Rightarrow> object3d \<Rightarrow> rat list) \<Rightarrow> world \<Rightarrow> world" where
  "click setFromCamera w =
     (case chair w of
        None \<Rightarrow> w
      | Some model \<Rightarrow>
          (case intersectObjects (setFromCamera (mouse w)) (children model) of
             [] \<Rightarrow> (restoreMaterial w)\<lparr>target := None\<rparr>
           | hit # _ \<Rightarrow>
               (let w1 = restoreMaterial w;
                    w2 = w1\<lparr>target := Some (snd hit)\<rparr>;
                    w3 = w2\<lparr>tempMaterial := Some (materialOf w2 (ident (snd hit)))\<rparr>
                in w3\<lparr>materialOf := (materialOf w3)(ident (snd hit) := selectedMaterial w3)\<rparr>)))"

section \<open>Sequences of events\<close>

text \<open>
  What can happen to a controller between its construction and a given moment, as far as
  selection is concerned: clicks (each with the ray test of its moment), pointer moves,
  and the model load settling. Texture application is not among them.
\<close>

datatype event =
    Click "jsnum \<times> jsnum \<Rightarrow> object3d \<Rightarrow> rat list"
  | MouseMove mouse_event nat nat
  | ModelSettled "object3d settled"

fun step :: "event \<Rightarrow> world \<Rightarrow> world" where
  "step (Click setFromCamera) w = click setFromCamera w"
| "step (MouseMove e clientWidth clientHeight) w = mousemove e clientWidth clientHeight w"
| "step (ModelSettled r) w = snd (loadModel (\<lambda>url. r) ''chair.glb'' w)"

definition run :: "event list \<Rightarrow> world \<Rightarrow> world" where
  "run events w = fold step events w"

text \<open>
  The part most recently selected along a sequence of events: the target left by the
  latest event after which there was a target, and \<open>prev\<close> when no event left one.
\<close>

fun lastSelected :: "event list \<Rightarrow> world \<Rightarrow> object3d option \<Rightarrow> object3d option" where
  "lastSelected [] w prev = prev"
| "lastSelected (e # es) w prev =
     lastSelected es (step e w) (case target (step e w) of None \<Rightarrow> prev | Some t \<Rightarrow> Some t)"

section \<open>Predicates of the specification\<close>

text \<open>
  The selection invariant relative to the materials \<open>original\<close> the parts had before any
  click: with no selection every part has its original material; with a selection the
  selected part carries the highlight, its original material is in the saved slot, and
  every other part has its original material.
\<close>

definition selection_inv :: "(nat \<Rightarrow> material) \<Rightarrow> world \<Rightarrow> bool" where
  "selection_inv original w =
     (case target w of
        None \<Rightarrow> materialOf w = original
      | Some t \<Rightarrow>
          tempMaterial w = Some (original (ident t)) \<and>
          materialOf w = original(ident t := selectedMaterial w))"

text \<open>A stored pointer coordinate is a normalized device coordinate when it is finite and in [-1, 1].\<close>

definition in_ndc_range :: "jsnum \<Rightarrow> bool" where
  "in_ndc_range x = (case x of Finite a \<Rightarrow> - 1 \<le> a \<and> a \<le> 1 | _ \<Rightarrow> False)"

text \<open>The objects of a subtree in the order \<open>traverse\<close> visits them, and the meshes among them.\<close>

fun preorder :: "object3d \<Rightarrow> object3d list" where
  "preorder (Object3D i m cs) = Object3D i m cs # concat (map preorder cs)"

definition meshes :: "object3d \<Rightarrow> nat list" where
  "meshes t = map ident (filter isMesh (preorder t))"

section \<open>A sample scene\<close>

text \<open>
  The scenario of the specification: a model whose two children are the meshes M1 and M2,
  each with a material of its own, in a controller whose highlight material is the
  translucent red one of the source.
\<close>

definition sampleMaterial :: "nat \<Rightarrow> material" where
  "sampleMaterial i =
     \<lparr>mid = 10 + i, color = 0x808080, transparent = False, opacity = 1, map_texture = None\<rparr>"

definition sampleModel :: object3d where
  "sampleModel = Object3D 0 False [Object3D 1 True [], Object3D 2 True []]"

definition unloadedWorld :: world where
  "unloadedWorld =
     \<lparr>chair = None, mouse = (Finite 0, Finite 0), target = None, tempMaterial = None,
      selectedMaterial =
        \<lparr>mid = 0, color = 0xff0000, transparent = True, opacity = 1 / 2, map_texture = None\<rparr>,
      materialOf = sampleMaterial, castShadow = (\<lambda>i. False), receiveShadow = (\<lambda>i. False),
      scene = [], console = [], materialId = 1000\<rparr>"

definition sampleWorld :: world where
  "sampleWorld = snd (loadModel (\<lambda>url. Fulfilled sampleModel) ''chair.glb'' unloadedWorld)"

text \<open>Ray tests: a ray that hits only M1, one that hits only M2, one that hits nothing.\<close>

definition rayM1 :: "jsnum \<times> jsnum \<Rightarrow> object3d \<Rightarrow> rat list" where
  "rayM1 p obj = (if ident obj = 1 then [5] else [])"

definition rayM2 :: "jsnum \<times> jsnum \<Rightarrow> object3d \<Rightarrow> rat list" where
  "rayM2 p obj = (if ident obj = 2 then [4] else [])"

definition rayNone :: "jsnum \<times> jsnum \<Rightarrow> object3d \<Rightarrow> rat list" where
  "rayNone p obj = []"

definition woodTexture :: texture where
  "woodTexture = \<lparr>source = ''img/wood_.jpg'', wrapS = ClampToEdgeWrapping, wrapT = ClampToEdgeWrapping\<rparr>"

text \<open>
  A second model, in which M1 has a child mesh of its own, and a ray that would hit that
  grandchild nearest of all, then M2, then M1.
\<close>

definition nestedModel :: object3d where
  "nestedModel = Object3D 0 False [Object3D 1 True [Object3D 3 True []], Object3D 2 True []]"

definition nestedWorld :: world where
  "nestedWorld = snd (loadModel (\<lambda>url. Fulfilled nestedModel) ''chair.glb'' unloadedWorld)"

definition rayNested :: "jsnum \<times> jsnum \<Rightarrow> object3d \<Rightarrow> rat list" where
  "rayNested p obj =
     (if ident obj = 3 then [1] else if ident obj = 1 then [5] else if ident obj = 2 then [4] else [])"

section \<open>The sample scene, evaluated\<close>

lemma sampleWorld_fields:
  "chair sampleWorld = Some sampleModel"
  "mouse sampleWorld = (Finite 0, Finite 0)"
  "target sampleWorld = None"
  "tempMaterial sampleWorld = None"
  "selectedMaterial sampleWorld = selectedMaterial unloadedWorld"
  "materialOf sampleWorld = sampleMaterial"
  "materialId sampleWorld = 1000"
  by (simp_all add: sampleWorld_def loadModel_def unloadedWorld_def sampleModel_def markShadows_def Let_def)

lemma children_sampleModel: "children sampleModel = [Object3D 1 True [], Object3D 2 True []]"
  by (simp add: sampleModel_def)

lemma hits_M1: "intersectObjects (rayM1 p) (children sampleModel) = [(5, Object3D 1 True [])]"
  by (simp add: intersectObjects_def children_sampleModel rayM1_def)

lemma hits_M2: "intersectObjects (rayM2 p) (children sampleModel) = [(4, Object3D 2 True [])]"
  by (simp add: intersectObjects_def children_sampleModel rayM2_def)

lemma hits_None: "intersectObjects (rayNone p) (children sampleModel) = []"
  by (simp add: intersectObjects_def children_sampleModel rayNone_def)

section \<open>Traversal visits the subtree in preorder\<close>

lemma fold_traverse_children:
  "(\<And>c s. c \<in> set cs \<Longrightarrow> traverse f c s = fold f (preorder c) s) \<Longrightarrow>
   fold (traverse f) cs s = fold f (concat (map preorder cs)) s"
  by (induction cs arbitrary: s) simp_all

lemma traverse_preorder: "traverse f t s = fold f (preorder t) s"
proof (induction f t s rule: traverse.induct)
  case (1 callback i m cs s)
  have "fold (traverse callback) cs (callback (Object3D i m cs) s) =
        fold callback (concat (map preorder cs)) (callback (Object3D i m cs) s)"
    by (rule fold_traverse_children) (rule "1.IH")
  then show ?case by simp
qed

section \<open>One click\<close>

lemma restoreMaterial_fields:
  "chair (restoreMaterial w) = chair w"
  "mouse (restoreMaterial w) = mouse w"
  "target (restoreMaterial w) = target w"
  "tempMaterial (restoreMaterial w) = tempMaterial w"
  "selectedMaterial (restoreMaterial w) = selectedMaterial w"
  by (simp_all add: restoreMaterial_def split: option.splits)

lemma restoreMaterial_unselected: "target w = None \<Longrightarrow> restoreMaterial w = w"
  by (simp add: restoreMaterial_def)

lemma click_miss:
  "chair w = Some g \<Longrightarrow> intersectObjects (sfc (mouse w)) (children g) = [] \<Longrightarrow>
   click sfc w = (restoreMaterial w)\<lparr>target := None\<rparr>"
  by (simp add: click_def)

lemma click_hit:
  "chair w = Some g \<Longrightarrow> intersectObjects (sfc (mouse w)) (children g) = (d, a) # rest \<Longrightarrow>
   click sfc w = (restoreMaterial w)
      \<lparr>target := Some a,
       tempMaterial := Some (materialOf (restoreMaterial w) (ident a)),
       materialOf := (materialOf (restoreMaterial w))(ident a := selectedMaterial w)\<rparr>"
  by (simp add: click_def Let_def restoreMaterial_fields)

lemma sample_click_M1:
  "click rayM1 sampleWorld =
     sampleWorld\<lparr>target := Some (Object3D 1 True []), tempMaterial := Some (sampleMaterial 1),
       materialOf := sampleMaterial(1 := selectedMaterial sampleWorld)\<rparr>"
  using click_hit [of sampleWorld sampleModel rayM1 5 "Object3D 1 True []" "[]"]
  by (simp add: sampleWorld_fields hits_M1 restoreMaterial_unselected)

lemma sample_click_M1_None:
  "click rayNone (click rayM1 sampleWorld) =
     sampleWorld\<lparr>target := None, tempMaterial := Some (sampleMaterial 1), materialOf := sampleMaterial\<rparr>"
  using click_miss [of "click rayM1 sampleWorld" sampleModel rayNone]
  by (simp add: sample_click_M1 sampleWorld_fields hits_None restoreMaterial_def)

section \<open>The selection invariant is kept by every event\<close>

lemma restoreMaterial_inv:
  "selection_inv original w \<Longrightarrow> materialOf (restoreMaterial w) = original"
  by (auto simp add: selection_inv_def restoreMaterial_def split: option.splits)

lemma click_inv:
  assumes "selection_inv original w"
  shows "selection_inv original (click sfc w)"
proof (cases "chair w")
  case None
  then show ?thesis using assms by (simp add: click_def)
next
  case (Some g)
  show ?thesis
  proof (cases "intersectObjects (sfc (mouse w)) (children g)")
    case Nil
    then show ?thesis
      using Some assms by (simp add: click_miss selection_inv_def restoreMaterial_inv)
  next
    case (Cons hit rest)
    then have "intersectObjects (sfc (mouse w)) (children g) = (fst hit, snd hit) # rest"
      by simp
    with Some have "click sfc w = (restoreMaterial w)
      \<lparr>target := Some (snd hit),
       tempMaterial := Some (materialOf (restoreMaterial w) (ident (snd hit))),
       materialOf := (materialOf (restoreMaterial w))(ident (snd hit) := selectedMaterial w)\<rparr>"
      by (rule click_hit)
    then show ?thesis
      using assms by (simp add: selection_inv_def restoreMaterial_inv restoreMaterial_fields)
  qed
qed

lemma mousemove_inv: "selection_inv original w \<Longrightarrow> selection_inv original (mousemove e cw ch w)"
  by (simp add: selection_inv_def mousemove_def split: option.splits)

lemma fold_markShadows_fields:
  "target (fold markShadows xs w) = target w \<and>
   tempMaterial (fold markShadows xs w) = tempMaterial w \<and>
   selectedMaterial (fold markShadows xs w) = selectedMaterial w \<and>
   materialOf (fold markShadows xs w) = materialOf w"
  by (induction xs arbitrary: w) (simp_all add: markShadows_def)

lemma loadModel_fields:
  "target (snd (loadModel la url w)) = target w"
  "tempMaterial (snd (loadModel la url w)) = tempMaterial w"
  "selectedMaterial (snd (loadModel la url w)) = selectedMaterial w"
  "materialOf (snd (loadModel la url w)) = materialOf w"
  by (simp_all add: loadModel_def Let_def traverse_preorder fold_markShadows_fields split: settled.splits)

lemma loadModel_inv: "selection_inv original w \<Longrightarrow> selection_inv original (snd (loadModel la url w))"
  by (simp add: selection_inv_def loadModel_fields split: option.splits)

lemma step_inv: "selection_inv original w \<Longrightarrow> selection_inv original (step e w)"
  by (cases e) (simp_all add: click_inv mousemove_inv loadModel_inv)

lemma run_inv: "selection_inv original w \<Longrightarrow> selection_inv original (run es w)"
  unfolding run_def by (induction es arbitrary: w) (simp_all add: step_inv)

lemma step_selectedMaterial: "selectedMaterial (step e w) = selectedMaterial w"
  by (cases e) (simp_all add: click_def Let_def restoreMaterial_fields mousemove_def loadModel_fields split: option.splits list.splits)

lemma run_selectedMaterial: "selectedMaterial (run es w) = selectedMaterial w"
  unfolding run_def by (induction es arbitrary: w) (simp_all add: step_selectedMaterial)

lemma selection_inv_init: "target w = None \<Longrightarrow> selection_inv (materialOf w) w"
  by (simp add: selection_inv_def)

lemma run_Cons: "run (e # es) w = run es (step e w)"
  by (simp add: run_def)

lemma run_Nil: "run [] w = w"
  by (simp add: run_def)

section \<open>The texture callback over a list of objects\<close>

lemma applyTexture_other: "\<not> isMesh obj \<Longrightarrow> applyTexture texture obj s = s"
  by (simp add: applyTexture_def)

lemma applyTexture_first:
  "isMesh obj \<Longrightarrow> applyTexture texture obj (False, w) =
     (True, w\<lparr>tempMaterial := Some (MeshPhongMaterial (materialId w) texture),
              materialOf := (materialOf w)(ident obj := MeshPhongMaterial (Suc (materialId w)) texture),
              materialId := Suc (Suc (materialId w))\<rparr>)"
  by (simp add: applyTexture_def newMeshPhongMaterial_def)

lemma applyTexture_later:
  "isMesh obj \<Longrightarrow> applyTexture texture obj (True, w) =
     (True, w\<lparr>materialOf := (materialOf w)(ident obj := MeshPhongMaterial (materialId w) texture),
              materialId := Suc (materialId w)\<rparr>)"
  by (simp add: applyTexture_def newMeshPhongMaterial_def)

lemma fold_applyTexture_later_exact:
  "\<exists>w'. fold (applyTexture texture) xs (True, w) = (True, w') \<and>
        tempMaterial w' = tempMaterial w \<and>
        materialId w' = materialId w + length (filter isMesh xs) \<and>
        (\<forall>i. if i \<in> set (map ident (filter isMesh xs))
             then (\<exists>j<length (map ident (filter isMesh xs)).
                     map ident (filter isMesh xs) ! j = i \<and>
                     materialOf w' i = MeshPhongMaterial (materialId w + j) texture)
             else materialOf w' i = materialOf w i)"
proof (induction xs arbitrary: w)
  case Nil
  show ?case by simp
next
  case (Cons x xs)
  let ?ms = "map ident (filter isMesh xs)"
  show ?case
  proof (cases "isMesh x")
    case False
    have a: "fold (applyTexture texture) (x # xs) (True, w) = fold (applyTexture texture) xs (True, w)"
      using False by (simp add: applyTexture_other)
    have b: "filter isMesh (x # xs) = filter isMesh xs" using False by simp
    show ?thesis unfolding a b by (rule Cons.IH)
  next
    case True
    define w1 where "w1 = w\<lparr>materialOf := (materialOf w)(ident x := MeshPhongMaterial (materialId w) texture),
              materialId := Suc (materialId w)\<rparr>"
    from Cons.IH [of w1] obtain w' where
      f: "fold (applyTexture texture) xs (True, w1) = (True, w')" and
      t: "tempMaterial w' = tempMaterial w1" and
      n: "materialId w' = materialId w1 + length (filter isMesh xs)" and
      m: "\<And>i. if i \<in> set ?ms
             then (\<exists>j<length ?ms. ?ms ! j = i \<and> materialOf w' i = MeshPhongMaterial (materialId w1 + j) texture)
             else materialOf w' i = materialOf w1 i"
      by blast
    have id1: "materialId w1 = Suc (materialId w)" by (simp add: w1_def)
    have ms: "map ident (filter isMesh (x # xs)) = ident x # ?ms" using True by simp
    have "fold (applyTexture texture) (x # xs) (True, w) = (True, w')"
      using True f by (simp add: applyTexture_later w1_def)
    moreover have "tempMaterial w' = tempMaterial w" using t by (simp add: w1_def)
    moreover have "materialId w' = materialId w + length (filter isMesh (x # xs))"
      using n id1 True by simp
    moreover have "if i \<in> set (map ident (filter isMesh (x # xs)))
             then (\<exists>j<length (map ident (filter isMesh (x # xs))).
                     map ident (filter isMesh (x # xs)) ! j = i \<and>
                     materialOf w' i = MeshPhongMaterial (materialId w + j) texture)
             else materialOf w' i = materialOf w i" for i
    proof (cases "i \<in> set ?ms")
      case True
      with m [of i] obtain j where j: "j < length ?ms" "?ms ! j = i"
        "materialOf w' i = MeshPhongMaterial (materialId w1 + j) texture"
        by auto
      have "Suc j < length (ident x # ?ms) \<and> (ident x # ?ms) ! Suc j = i \<and>
            materialOf w' i = MeshPhongMaterial (materialId w + Suc j) texture"
        using j id1 by simp
      then have "\<exists>j'<length (ident x # ?ms). (ident x # ?ms) ! j' = i \<and>
            materialOf w' i = MeshPhongMaterial (materialId w + j') texture"
        by blast
      then show ?thesis unfolding ms using True by simp
    next
      case False
      with m [of i] have eq: "materialOf w' i = materialOf w1 i" by simp
      show ?thesis
      proof (cases "i = ident x")
        case True
        then have "materialOf w' i = MeshPhongMaterial (materialId w + 0) texture"
          using eq by (simp add: w1_def)
        then have "0 < length (ident x # ?ms) \<and> (ident x # ?ms) ! 0 = i \<and>
            materialOf w' i = MeshPhongMaterial (materialId w + 0) texture"
          using True by simp
        then have "\<exists>j'<length (ident x # ?ms). (ident x # ?ms) ! j' = i \<and>
            materialOf w' i = MeshPhongMaterial (materialId w + j') texture"
          by blast
        then show ?thesis unfolding ms using True by simp
      next
        case ne: False
        then have "materialOf w' i = materialOf w i" using eq by (simp add: w1_def)
        then show ?thesis unfolding ms using ne False by simp
      qed
    qed
    ultimately show ?thesis by blast
  qed
qed

lemma fold_applyTexture_none:
  "filter isMesh xs = [] \<Longrightarrow> fold (applyTexture texture) xs s = s"
  by (induction xs arbitrary: s) (simp_all add: applyTexture_other split: if_splits)

lemma applyTexture_frame:
  "snd (applyTexture texture x (b, w)) =
     w\<lparr>tempMaterial := tempMaterial (snd (applyTexture texture x (b, w))),
       materialOf := materialOf (snd (applyTexture texture x (b, w))),
       materialId := materialId (snd (applyTexture texture x (b, w)))\<rparr>"
  by (cases "isMesh x"; cases b) (simp_all add: applyTexture_other applyTexture_first applyTexture_later)

lemma fold_applyTexture_frame:
  "snd (fold (applyTexture texture) xs (b, w)) =
     w\<lparr>tempMaterial := tempMaterial (snd (fold (applyTexture texture) xs (b, w))),
       materialOf := materialOf (snd (fold (applyTexture texture) xs (b, w))),
       materialId := materialId (snd (fold (applyTexture texture) xs (b, w)))\<rparr>"
proof (induction xs arbitrary: b w)
  case Nil
  show ?case by simp
next
  case (Cons x xs)
  obtain b1 w1 where s1: "applyTexture texture x (b, w) = (b1, w1)"
    by (cases "applyTexture texture x (b, w)")
  have w1: "w1 = w\<lparr>tempMaterial := tempMaterial w1, materialOf := materialOf w1, materialId := materialId w1\<rparr>"
    using applyTexture_frame [of texture x b w] by (simp add: s1)
  have "snd (fold (applyTexture texture) xs (b1, w1)) =
     w1\<lparr>tempMaterial := tempMaterial (snd (fold (applyTexture texture) xs (b1, w1))),
       materialOf := materialOf (snd (fold (applyTexture texture) xs (b1, w1))),
       materialId := materialId (snd (fold (applyTexture texture) xs (b1, w1)))\<rparr>"
    by (rule Cons.IH)
  also have "\<dots> = w\<lparr>tempMaterial := tempMaterial (snd (fold (applyTexture texture) xs (b1, w1))),
       materialOf := materialOf (snd (fold (applyTexture texture) xs (b1, w1))),
       materialId := materialId (snd (fold (applyTexture texture) xs (b1, w1)))\<rparr>"
    by (subst w1) simp
  finally show ?case by (simp add: s1)
qed

lemma fold_applyTexture_first_exact:
  "filter isMesh xs \<noteq> [] \<Longrightarrow>
   \<exists>w'. fold (applyTexture texture) xs (False, w) = (True, w') \<and>
        tempMaterial w' = Some (MeshPhongMaterial (materialId w) texture) \<and>
        materialId w' = materialId w + 1 + length (filter isMesh xs) \<and>
        (\<forall>i. if i \<in> set (map ident (filter isMesh xs))
             then (\<exists>j<length (map ident (filter isMesh xs)).
                     map ident (filter isMesh xs) ! j = i \<and>
                     materialOf w' i = MeshPhongMaterial (materialId w + 1 + j) texture)
             else materialOf w' i = materialOf w i)"
proof (induction xs)
  case Nil
  then show ?case by simp
next
  case (Cons x xs)
  let ?ms = "map ident (filter isMesh xs)"
  show ?case
  proof (cases "isMesh x")
    case False
    have a: "fold (applyTexture texture) (x # xs) (False, w) = fold (applyTexture texture) xs (False, w)"
      using False by (simp add: applyTexture_other)
    have b: "filter isMesh (x # xs) = filter isMesh xs" using False by simp
    have "filter isMesh xs \<noteq> []" using Cons.prems unfolding b .
    then show ?thesis unfolding a b by (rule Cons.IH)
  next
    case True
    define w1 where "w1 = w\<lparr>tempMaterial := Some (MeshPhongMaterial (materialId w) texture),
              materialOf := (materialOf w)(ident x := MeshPhongMaterial (Suc (materialId w)) texture),
              materialId := Suc (Suc (materialId w))\<rparr>"
    from fold_applyTexture_later_exact [of texture xs w1] obtain w' where
      f: "fold (applyTexture texture) xs (True, w1) = (True, w')" and
      t: "tempMaterial w' = tempMaterial w1" and
      n: "materialId w' = materialId w1 + length (filter isMesh xs)" and
      m: "\<And>i. if i \<in> set ?ms
             then (\<exists>j<length ?ms. ?ms ! j = i \<and> materialOf w' i = MeshPhongMaterial (materialId w1 + j) texture)
             else materialOf w' i = materialOf w1 i"
      by blast
    have id1: "materialId w1 = Suc (Suc (materialId w))" by (simp add: w1_def)
    have ms: "map ident (filter isMesh (x # xs)) = ident x # ?ms" using True by simp
    have "fold (applyTexture texture) (x # xs) (False, w) = (True, w')"
      using True f by (simp add: applyTexture_first w1_def)
    moreover have "tempMaterial w' = Some (MeshPhongMaterial (materialId w) texture)"
      using t by (simp add: w1_def)
    moreover have "materialId w' = materialId w + 1 + length (filter isMesh (x # xs))"
      using n id1 True by simp
    moreover have "if i \<in> set (map ident (filter isMesh (x # xs)))
             then (\<exists>j<length (map ident (filter isMesh (x # xs))).
                     map ident (filter isMesh (x # xs)) ! j = i \<and>
                     materialOf w' i = MeshPhongMaterial (materialId w + 1 + j) texture)
             else materialOf w' i = materialOf w i" for i
    proof (cases "i \<in> set ?ms")
      case True
      with m [of i] obtain j where j: "j < length ?ms" "?ms ! j = i"
        "materialOf w' i = MeshPhongMaterial (materialId w1 + j) texture"
        by auto
      have "Suc j < length (ident x # ?ms) \<and> (ident x # ?ms) ! Suc j = i \<and>
            materialOf w' i = MeshPhongMaterial (materialId w + 1 + Suc j) texture"
        using j id1 by simp
      then have "\<exists>j'<length (ident x # ?ms). (ident x # ?ms) ! j' = i \<and>
            materialOf w' i = MeshPhongMaterial (materialId w + 1 + j') texture"
        by blast
      then show ?thesis unfolding ms using True by simp
    next
      case False
      with m [of i] have eq: "materialOf w' i = materialOf w1 i" by simp
      show ?thesis
      proof (cases "i = ident x")
        case True
        then have "materialOf w' i = MeshPhongMaterial (materialId w + 1 + 0) texture"
          using eq by (simp add: w1_def)
        then have "0 < length (ident x # ?ms) \<and> (ident x # ?ms) ! 0 = i \<and>
            materialOf w' i = MeshPhongMaterial (materialId w + 1 + 0) texture"
          using True by simp
        then have "\<exists>j'<length (ident x # ?ms). (ident x # ?ms) ! j' = i \<and>
            materialOf w' i = MeshPhongMaterial (materialId w + 1 + j') texture"
          by blast
        then show ?thesis unfolding ms using True by simp
      next
        case ne: False
        then have "materialOf w' i = materialOf w i" using eq by (simp add: w1_def)
        then show ?thesis unfolding ms using ne False by simp
      qed
    qed
    ultimately show ?thesis by blast
  qed
qed

lemma MeshPhongMaterial_inject: "MeshPhongMaterial k texture = MeshPhongMaterial k' texture' \<longleftrightarrow> k = k' \<and> texture = texture'"
  by (auto simp add: MeshPhongMaterial_def)

lemma updateTexture_fulfilled:
  "target w = Some t \<Longrightarrow> loadAsync url = Fulfilled loaded \<Longrightarrow>
   updateTexture loadAsync url w =
     (Fulfilled (), snd (fold (applyTexture (loaded\<lparr>wrapS := RepeatWrapping, wrapT := RepeatWrapping\<rparr>)) (preorder t) (False, w)))"
  by (simp add: updateTexture_def traverse_preorder)

section \<open>What the saved slot can hold\<close>

lemma step_slot:
  assumes inv: "selection_inv original w"
    and slot: "tempMaterial w = (case prev of None \<Rightarrow> saved | Some t \<Rightarrow> Some (original (ident t)))"
    and cur: "case target w of None \<Rightarrow> True | Some t \<Rightarrow> prev = Some t"
  shows "tempMaterial (step e w) =
           (case (case target (step e w) of None \<Rightarrow> prev | Some t \<Rightarrow> Some t) of
              None \<Rightarrow> saved
            | Some t \<Rightarrow> Some (original (ident t)))"
proof -
  have keep: ?thesis if "target (step e w) = target w" "tempMaterial (step e w) = tempMaterial w"
    using that slot cur by (simp split: option.splits)
  show ?thesis
  proof (cases e)
    case (Click sfc)
    show ?thesis
    proof (cases "chair w")
      case None
      then show ?thesis using Click by (intro keep) (simp_all add: click_def)
    next
      case (Some g)
      show ?thesis
      proof (cases "intersectObjects (sfc (mouse w)) (children g)")
        case Nil
        with Some have "click sfc w = (restoreMaterial w)\<lparr>target := None\<rparr>"
          by (rule click_miss)
        then show ?thesis using Click slot by (simp add: restoreMaterial_fields)
      next
        case (Cons hit rest)
        then have "intersectObjects (sfc (mouse w)) (children g) = (fst hit, snd hit) # rest"
          by simp
        with Some have "click sfc w = (restoreMaterial w)
          \<lparr>target := Some (snd hit),
           tempMaterial := Some (materialOf (restoreMaterial w) (ident (snd hit))),
           materialOf := (materialOf (restoreMaterial w))(ident (snd hit) := selectedMaterial w)\<rparr>"
          by (rule click_hit)
        then show ?thesis using Click inv by (simp add: restoreMaterial_inv)
      qed
    qed
  next
    case (MouseMove ev cw ch)
    then show ?thesis by (intro keep) (simp_all add: mousemove_def)
  next
    case (ModelSettled r)
    then show ?thesis by (intro keep) (simp_all add: loadModel_fields)
  qed
qed

lemma run_slot:
  "selection_inv original w \<Longrightarrow>
   tempMaterial w = (case prev of None \<Rightarrow> saved | Some t \<Rightarrow> Some (original (ident t))) \<Longrightarrow>
   (case target w of None \<Rightarrow> True | Some t \<Rightarrow> prev = Some t) \<Longrightarrow>
   tempMaterial (run es w) =
     (case lastSelected es w prev of None \<Rightarrow> saved | Some t \<Rightarrow> Some (original (ident t))) \<and>
   (case target (run es w) of None \<Rightarrow> True | Some t \<Rightarrow> lastSelected es w prev = Some t)"
proof (induction es arbitrary: w prev)
  case Nil
  then show ?case by (simp add: run_Nil split: option.splits)
next
  case (Cons e es)
  let ?prev = "case target (step e w) of None \<Rightarrow> prev | Some t \<Rightarrow> Some t"
  have a: "selection_inv original (step e w)" using Cons.prems(1) by (rule step_inv)
  have b: "tempMaterial (step e w) = (case ?prev of None \<Rightarrow> saved | Some t \<Rightarrow> Some (original (ident t)))"
    using Cons.prems by (rule step_slot)
  have c: "case target (step e w) of None \<Rightarrow> True | Some t \<Rightarrow> ?prev = Some t"
    by (simp split: option.splits)
  from Cons.IH [OF a b c] show ?case unfolding run_Cons lastSelected.simps .
qed

lemma clear_keeps_slot:
  assumes "selection_inv original w" "chair w = Some g" "target w = Some t"
    and "intersectObjects (sfc (mouse w)) (children g) = []"
  shows "target (click sfc w) = None \<and>
         tempMaterial (click sfc w) = Some (original (ident t)) \<and>
         materialOf (click sfc w) = original"
proof -
  have c: "click sfc w = (restoreMaterial w)\<lparr>target := None\<rparr>"
    using assms(2,4) by (rule click_miss)
  have "tempMaterial w = Some (original (ident t))"
    using assms(1,3) by (simp add: selection_inv_def)
  then show ?thesis
    using assms(1) by (simp add: c restoreMaterial_fields restoreMaterial_inv)
qed

lemma sample_click_M1_M2:
  "click rayM2 (click rayM1 sampleWorld) =
     sampleWorld\<lparr>target := Some (Object3D 2 True []), tempMaterial := Some (sampleMaterial 2),
       materialOf := sampleMaterial(2 := selectedMaterial sampleWorld)\<rparr>"
  using click_hit [of "click rayM1 sampleWorld" sampleModel rayM2 4 "Object3D 2 True []" "[]"]
  by (simp add: sample_click_M1 sampleWorld_fields hits_M2 restoreMaterial_def)

lemma sample_no_highlight: "\<forall>i. materialOf sampleWorld i \<noteq> selectedMaterial sampleWorld"
  by (simp add: sampleWorld_fields sampleMaterial_def unloadedWorld_def)

lemma sample_click_M1_M2_None:
  "click rayNone (click rayM2 (click rayM1 sampleWorld)) =
     sampleWorld\<lparr>target := None, tempMaterial := Some (sampleMaterial 2), materialOf := sampleMaterial\<rparr>"
  using click_miss [of "click rayM2 (click rayM1 sampleWorld)" sampleModel rayNone]
  by (simp add: sample_click_M1_M2 sampleWorld_fields hits_None restoreMaterial_def)

lemma sample_lastSelected:
  "lastSelected [Click rayM1, Click rayM2, Click rayNone] sampleWorld None = Some (Object3D 2 True [])"
proof -
  have t1: "target (click rayM1 sampleWorld) = Some (Object3D 1 True [])"
    by (simp add: sample_click_M1)
  have t2: "target (click rayM2 (click rayM1 sampleWorld)) = Some (Object3D 2 True [])"
    by (simp add: sample_click_M1_M2)
  have t3: "target (click rayNone (click rayM2 (click rayM1 sampleWorld))) = None"
    by (simp add: sample_click_M1_M2_None)
  show ?thesis by (simp add: t1 t2 t3)
qed

section \<open>The hits of a ray cast\<close>

lemma intersectObjects_set:
  "set (intersectObjects ray objs) = {(d, c). c \<in> set objs \<and> d \<in> set (ray c)}"
  by (auto simp add: intersectObjects_def)

lemma intersectObjects_sorted: "sorted (map fst (intersectObjects ray objs))"
  by (simp add: intersectObjects_def)

lemma intersectObjects_cong:
  "(\<And>c. c \<in> set objs \<Longrightarrow> ray' c = ray c) \<Longrightarrow> intersectObjects ray' objs = intersectObjects ray objs"
  by (simp add: intersectObjects_def cong: map_cong)

lemma intersectObjects_empty:
  "intersectObjects ray objs = [] \<longleftrightarrow> (\<forall>c\<in>set objs. ray c = [])"
proof -
  let ?all = "concat (map (\<lambda>obj. map (\<lambda>d. (d, obj)) (ray obj)) objs)"
  have "intersectObjects ray objs = [] \<longleftrightarrow> length (sort_key fst ?all) = 0"
    unfolding intersectObjects_def by (rule length_0_conv [symmetric])
  also have "\<dots> \<longleftrightarrow> ?all = []" by simp
  also have "\<dots> \<longleftrightarrow> (\<forall>c\<in>set objs. ray c = [])" by simp
  finally show ?thesis .
qed

lemma intersectObjects_first:
  assumes "intersectObjects ray objs = (d, t) # rest"
  shows "t \<in> set objs \<and> d \<in> set (ray t) \<and> (\<forall>c\<in>set objs. \<forall>d'\<in>set (ray c). d \<le> d')"
proof -
  have "(d, t) \<in> set (intersectObjects ray objs)" using assms by simp
  then have mem: "t \<in> set objs \<and> d \<in> set (ray t)"
    unfolding intersectObjects_set by simp
  have "sorted (map fst ((d, t) # rest))"
    using intersectObjects_sorted [of ray objs] assms by simp
  then have le: "\<forall>h\<in>set rest. d \<le> fst h" by simp
  have "d \<le> d'" if "c \<in> set objs" "d' \<in> set (ray c)" for c d'
  proof -
    have "(d', c) \<in> set (intersectObjects ray objs)"
      unfolding intersectObjects_set using that by simp
    then have "(d', c) = (d, t) \<or> (d', c) \<in> set rest" using assms by simp
    then show ?thesis using le by auto
  qed
  then show ?thesis using mem by blast
qed

lemma pick_miss:
  assumes "chair w = Some g" and "\<forall>c\<in>set (children g). setFromCamera (mouse w) c = []"
  shows "target (click setFromCamera w) = None"
proof -
  have "intersectObjects (setFromCamera (mouse w)) (children g) = []"
    using assms(2) by (simp add: intersectObjects_empty)
  with assms(1) have "click setFromCamera w = (restoreMaterial w)\<lparr>target := None\<rparr>"
    by (rule click_miss)
  then show ?thesis by simp
qed

lemma pick_hit:
  assumes "chair w = Some g" and "\<exists>c\<in>set (children g). setFromCamera (mouse w) c \<noteq> []"
  shows "\<exists>t d. target (click setFromCamera w) = Some t \<and> t \<in> set (children g) \<and>
           d \<in> set (setFromCamera (mouse w) t) \<and>
           (\<forall>c\<in>set (children g). \<forall>d'\<in>set (setFromCamera (mouse w) c). d \<le> d')"
proof -
  let ?hits = "intersectObjects (setFromCamera (mouse w)) (children g)"
  have "?hits \<noteq> []" using assms(2) by (simp add: intersectObjects_empty)
  then obtain d t rest where h: "?hits = (d, t) # rest"
    by (cases ?hits) auto
  with assms(1) have "click setFromCamera w = (restoreMaterial w)
      \<lparr>target := Some t,
       tempMaterial := Some (materialOf (restoreMaterial w) (ident t)),
       materialOf := (materialOf (restoreMaterial w))(ident t := selectedMaterial w)\<rparr>"
    by (rule click_hit)
  then have "target (click setFromCamera w) = Some t" by simp
  moreover note intersectObjects_first [OF h]
  ultimately show ?thesis by blast
qed

lemma pick_nearest:
  assumes "chair w = Some g"
    and a: "a \<in> set (children g)" "da \<in> set (setFromCamera (mouse w) a)"
    and far: "\<forall>c\<in>set (children g). \<forall>d'\<in>set (setFromCamera (mouse w) c). c \<noteq> a \<longrightarrow> da < d'"
  shows "target (click setFromCamera w) = Some a"
proof -
  have "setFromCamera (mouse w) a \<noteq> []" using a(2) by (cases "setFromCamera (mouse w) a") simp_all
  then have "\<exists>c\<in>set (children g). setFromCamera (mouse w) c \<noteq> []" using a(1) by blast
  with assms(1) obtain t d where
    t: "target (click setFromCamera w) = Some t" "t \<in> set (children g)"
       "d \<in> set (setFromCamera (mouse w) t)"
    and least: "\<forall>c\<in>set (children g). \<forall>d'\<in>set (setFromCamera (mouse w) c). d \<le> d'"
    using pick_hit [of w g setFromCamera] by blast
  have le: "d \<le> da" using least a by blast
  have "t = a"
  proof (rule ccontr)
    assume "t \<noteq> a"
    then have "da < d" using far t(2,3) by blast
    then show False using le by simp
  qed
  then show ?thesis using t(1) by simp
qed

lemma pick_children_only:
  assumes "chair w = Some g"
    and "\<forall>c\<in>set (children g). other (mouse w) c = setFromCamera (mouse w) c"
  shows "click other w = click setFromCamera w"
proof -
  have "intersectObjects (other (mouse w)) (children g) =
        intersectObjects (setFromCamera (mouse w)) (children g)"
    using assms(2) by (intro intersectObjects_cong) simp
  then show ?thesis using assms(1) by (simp add: click_def)
qed

lemma nestedWorld_fields:
  "chair nestedWorld = Some nestedModel"
  "mouse nestedWorld = (Finite 0, Finite 0)"
  "target nestedWorld = None"
  by (simp_all add: nestedWorld_def loadModel_def unloadedWorld_def nestedModel_def markShadows_def Let_def)

lemma children_nestedModel:
  "children nestedModel = [Object3D 1 True [Object3D 3 True []], Object3D 2 True []]"
  by (simp add: nestedModel_def)

lemma nestedWorld_more:
  "tempMaterial nestedWorld = None"
  "selectedMaterial nestedWorld = selectedMaterial unloadedWorld"
  "materialOf nestedWorld = sampleMaterial"
  "materialId nestedWorld = 1000"
  by (simp_all add: nestedWorld_def loadModel_def unloadedWorld_def nestedModel_def markShadows_def Let_def)

lemma hits_nested_M1:
  "intersectObjects (rayM1 p) (children nestedModel) = [(5, Object3D 1 True [Object3D 3 True []])]"
  by (simp add: intersectObjects_def children_nestedModel rayM1_def)

lemma nested_click_M1:
  "click rayM1 nestedWorld =
     nestedWorld\<lparr>target := Some (Object3D 1 True [Object3D 3 True []]),
       tempMaterial := Some (sampleMaterial 1),
       materialOf := sampleMaterial(1 := selectedMaterial nestedWorld)\<rparr>"
  using click_hit [of nestedWorld nestedModel rayM1 5 "Object3D 1 True [Object3D 3 True []]" "[]"]
  by (simp add: nestedWorld_fields nestedWorld_more hits_nested_M1 restoreMaterial_unselected)

lemma meshes_nested_M1: "meshes (Object3D 1 True [Object3D 3 True []]) = [1, 3]"
  by (simp add: meshes_def)

section \<open>Pointer coordinates in range\<close>

lemma ndc_range_x: "0 \<le> q \<Longrightarrow> q \<le> 1 \<Longrightarrow> in_ndc_range (Finite (q * 2 - 1))"
  by (simp add: in_ndc_range_def)

lemma ndc_range_y: "0 \<le> q \<Longrightarrow> q \<le> 1 \<Longrightarrow> in_ndc_range (Finite (- q * 2 + 1))"
  by (simp add: in_ndc_range_def)

section \<open>Texture application on the sample scene\<close>

lemma sample_textured:
  "snd (updateTexture (\<lambda>url. Fulfilled woodTexture) ''img/wood_.jpg'' (click rayM1 sampleWorld)) =
     (click rayM1 sampleWorld)
       \<lparr>tempMaterial :=
          Some (MeshPhongMaterial 1000 (woodTexture\<lparr>wrapS := RepeatWrapping, wrapT := RepeatWrapping\<rparr>)),
        materialOf := (sampleMaterial(1 := selectedMaterial sampleWorld))
          (1 := MeshPhongMaterial 1001 (woodTexture\<lparr>wrapS := RepeatWrapping, wrapT := RepeatWrapping\<rparr>)),
        materialId := 1002\<rparr>"
  by (simp add: updateTexture_def Let_def applyTexture_first sample_click_M1 sampleWorld_fields)

section \<open>Claims about picking\<close>

text \<open>
  Claim C7 (no-model safety). In every controller state whose model slot is empty, a click
  returns the state as it was: no material, no selection field and nothing else changes.
  \<open>click\<close> has no failing branch, so there is no error to raise.
\<close>

theorem click_without_model: "chair w = None \<Longrightarrow> click setFromCamera w = w"
  by (simp add: click_def)

theorem click_without_model_witness: "chair unloadedWorld = None \<and> click rayM1 unloadedWorld = unloadedWorld"
  using click_without_model [of unloadedWorld rayM1] by (simp add: unloadedWorld_def)

text \<open>
  Claim C10 (empty-space click with no selection). In every state with no target, a click
  whose ray hits no child of the model returns the state as it was. Nothing is assumed
  about the saved slot: \<open>restoreMaterial\<close> needs a target as well as a saved material,
  so a material left in the slot by an earlier, cleared selection is not written anywhere.
\<close>

theorem click_empty_unselected:
  assumes "target w = None"
    and "case chair w of None \<Rightarrow> True | Some g \<Rightarrow> intersectObjects (setFromCamera (mouse w)) (children g) = []"
  shows "click setFromCamera w = w"
proof (cases "chair w")
  case None
  then show ?thesis by (simp add: click_def)
next
  case (Some g)
  then have "click setFromCamera w = (restoreMaterial w)\<lparr>target := None\<rparr>"
    using assms by (simp add: click_miss)
  then show ?thesis using assms by (simp add: restoreMaterial_unselected)
qed

theorem click_empty_unselected_witness:
  "target (run [Click rayM1, Click rayNone] sampleWorld) = None \<and>
   tempMaterial (run [Click rayM1, Click rayNone] sampleWorld) = Some (sampleMaterial 1) \<and>
   click rayNone (run [Click rayM1, Click rayNone] sampleWorld) = run [Click rayM1, Click rayNone] sampleWorld"
  using click_empty_unselected [of "run [Click rayM1, Click rayNone] sampleWorld" rayNone]
  by (simp add: run_Cons run_Nil sample_click_M1_None sampleWorld_fields hits_None)

text \<open>
  Claim C3 (restore round-trip). Let a click select the part \<open>a\<close> and let the next click
  hit nothing. Then the selection is cleared and every part has the material it had just
  before \<open>a\<close> was selected, that is, after the previous selection (if any) was restored.
  In particular, when \<open>a\<close> was not the selected part before the first click, its material
  is the very material it had in the state before that click.
\<close>

theorem restore_round_trip:
  assumes "chair w = Some g"
    and "intersectObjects (setFromCamera1 (mouse w)) (children g) = (d, a) # rest"
    and "w1 = click setFromCamera1 w"
    and "intersectObjects (setFromCamera2 (mouse w1)) (children g) = []"
    and "w2 = click setFromCamera2 w1"
  shows "target w1 = Some a \<and> target w2 = None \<and>
         materialOf w2 = materialOf (restoreMaterial w) \<and>
         ((\<forall>t. target w = Some t \<longrightarrow> ident t \<noteq> ident a) \<longrightarrow> materialOf w2 (ident a) = materialOf w (ident a))"
proof -
  have w1: "w1 = (restoreMaterial w)
      \<lparr>target := Some a,
       tempMaterial := Some (materialOf (restoreMaterial w) (ident a)),
       materialOf := (materialOf (restoreMaterial w))(ident a := selectedMaterial w)\<rparr>"
    using assms(1,2,3) by (simp add: click_hit)
  have c1: "chair w1 = Some g" using w1 assms(1) by (simp add: restoreMaterial_fields)
  have w2: "w2 = (restoreMaterial w1)\<lparr>target := None\<rparr>"
    using c1 assms(4,5) by (simp add: click_miss)
  have r1: "materialOf (restoreMaterial w1) = materialOf (restoreMaterial w)"
    by (simp add: w1 restoreMaterial_def)
  have pre: "materialOf (restoreMaterial w) (ident a) = materialOf w (ident a)"
    if "\<forall>t. target w = Some t \<longrightarrow> ident t \<noteq> ident a"
    using that by (auto simp add: restoreMaterial_def split: option.splits)
  have t1: "target w1 = Some a" by (simp add: w1)
  have t2: "target w2 = None" by (simp add: w2)
  have m2: "materialOf w2 = materialOf (restoreMaterial w)" using r1 by (simp add: w2)
  show ?thesis using t1 t2 m2 pre by simp
qed

theorem restore_round_trip_witness:
  "materialOf (click rayM1 sampleWorld) 1 = selectedMaterial sampleWorld \<and>
   target (click rayNone (click rayM1 sampleWorld)) = None \<and>
   materialOf (click rayNone (click rayM1 sampleWorld)) 1 = materialOf sampleWorld 1"
  using restore_round_trip [of sampleWorld sampleModel rayM1 5 "Object3D 1 True []" "[]" "click rayM1 sampleWorld"
      rayNone "click rayNone (click rayM1 sampleWorld)"]
  by (simp add: sampleWorld_fields hits_M1 hits_None sample_click_M1 sample_click_M1_None
      restoreMaterial_unselected)

text \<open>
  Claim C4 (pick ordering). With a model loaded, a click tests the ray against the
  immediate children of the model and nothing else: if the ray hits none of them the
  target is cleared; if it hits some, the target is a child with a hit that is at most as
  far as every hit of every child; a child with a hit strictly nearer than every hit of
  the other children is the one selected; and two ray tests that agree on the children
  give the same click, whatever they say about deeper objects.
\<close>

theorem pick_nearest_child:
  assumes "chair w = Some g"
  shows "((\<forall>c\<in>set (children g). setFromCamera (mouse w) c = []) \<longrightarrow>
            target (click setFromCamera w) = None) \<and>
         ((\<exists>c\<in>set (children g). setFromCamera (mouse w) c \<noteq> []) \<longrightarrow>
            (\<exists>t d. target (click setFromCamera w) = Some t \<and> t \<in> set (children g) \<and>
                   d \<in> set (setFromCamera (mouse w) t) \<and>
                   (\<forall>c\<in>set (children g). \<forall>d'\<in>set (setFromCamera (mouse w) c). d \<le> d'))) \<and>
         (\<forall>a\<in>set (children g). \<forall>da\<in>set (setFromCamera (mouse w) a).
            (\<forall>c\<in>set (children g). \<forall>d'\<in>set (setFromCamera (mouse w) c). c \<noteq> a \<longrightarrow> da < d') \<longrightarrow>
            target (click setFromCamera w) = Some a) \<and>
         (\<forall>other. (\<forall>c\<in>set (children g). other (mouse w) c = setFromCamera (mouse w) c) \<longrightarrow>
            click other w = click setFromCamera w)"
proof (intro conjI)
  show "(\<forall>c\<in>set (children g). setFromCamera (mouse w) c = []) \<longrightarrow>
            target (click setFromCamera w) = None"
    using assms by (intro impI) (rule pick_miss)
  show "(\<exists>c\<in>set (children g). setFromCamera (mouse w) c \<noteq> []) \<longrightarrow>
            (\<exists>t d. target (click setFromCamera w) = Some t \<and> t \<in> set (children g) \<and>
                   d \<in> set (setFromCamera (mouse w) t) \<and>
                   (\<forall>c\<in>set (children g). \<forall>d'\<in>set (setFromCamera (mouse w) c). d \<le> d'))"
    using assms by (intro impI) (rule pick_hit)
  show "\<forall>a\<in>set (children g). \<forall>da\<in>set (setFromCamera (mouse w) a).
            (\<forall>c\<in>set (children g). \<forall>d'\<in>set (setFromCamera (mouse w) c). c \<noteq> a \<longrightarrow> da < d') \<longrightarrow>
            target (click setFromCamera w) = Some a"
    using assms by (intro ballI impI) (rule pick_nearest)
  show "\<forall>other. (\<forall>c\<in>set (children g). other (mouse w) c = setFromCamera (mouse w) c) \<longrightarrow>
            click other w = click setFromCamera w"
    using assms by (intro allI impI) (rule pick_children_only)
qed

theorem pick_nearest_child_witness:
  "chair nestedWorld = Some nestedModel \<and>
   rayNested (mouse nestedWorld) (Object3D 3 True []) = [1] \<and>
   rayNested (mouse nestedWorld) (Object3D 1 True [Object3D 3 True []]) = [5] \<and>
   rayNested (mouse nestedWorld) (Object3D 2 True []) = [4] \<and>
   target (click rayNested nestedWorld) = Some (Object3D 2 True [])"
proof -
  have c: "chair nestedWorld = Some nestedModel" by (simp add: nestedWorld_fields)
  have far: "\<forall>c\<in>set (children nestedModel). \<forall>d'\<in>set (rayNested (mouse nestedWorld) c).
      c \<noteq> Object3D 2 True [] \<longrightarrow> 4 < d'"
    by (simp add: children_nestedModel rayNested_def)
  have "\<forall>a\<in>set (children nestedModel). \<forall>da\<in>set (rayNested (mouse nestedWorld) a).
            (\<forall>c\<in>set (children nestedModel). \<forall>d'\<in>set (rayNested (mouse nestedWorld) c). c \<noteq> a \<longrightarrow> da < d') \<longrightarrow>
            target (click rayNested nestedWorld) = Some a"
    using pick_nearest_child [OF c, of rayNested] by (elim conjE)
  then have "target (click rayNested nestedWorld) = Some (Object3D 2 True [])"
    using far by (simp add: children_nestedModel rayNested_def)
  then show ?thesis using c by (simp add: rayNested_def)
qed

text \<open>
  Claim C8 (idempotent reselect). In every state reached by clicks, pointer moves and the
  model load from a controller with no selection, clicking the part that is already
  selected changes nothing: the part stays the target, its active material is the
  highlight, and the saved slot holds the material the part had before any click, not the
  highlight, because the restore precedes the save.
\<close>

theorem idempotent_reselect:
  assumes "target w0 = None" and "w = run events w0"
    and "chair w = Some g" and "target w = Some a"
    and "intersectObjects (setFromCamera (mouse w)) (children g) = (d, a) # rest"
  shows "click setFromCamera w = w \<and>
         target (click setFromCamera w) = Some a \<and>
         materialOf (click setFromCamera w) (ident a) = selectedMaterial (click setFromCamera w) \<and>
         tempMaterial (click setFromCamera w) = Some (materialOf w0 (ident a)) \<and>
         (materialOf w0 (ident a) \<noteq> selectedMaterial w0 \<longrightarrow>
            tempMaterial (click setFromCamera w) \<noteq> Some (selectedMaterial (click setFromCamera w)))"
proof -
  have sel: "selectedMaterial w = selectedMaterial w0"
    unfolding assms(2) by (rule run_selectedMaterial)
  have inv: "selection_inv (materialOf w0) w"
    unfolding assms(2) using assms(1) by (intro run_inv selection_inv_init)
  have t: "tempMaterial w = Some (materialOf w0 (ident a))"
    and m: "materialOf w = (materialOf w0)(ident a := selectedMaterial w)"
    using inv assms(4) by (simp_all add: selection_inv_def)
  have r: "restoreMaterial w = w\<lparr>materialOf := materialOf w0\<rparr>"
    using assms(4) t by (simp add: restoreMaterial_def m)
  have c: "click setFromCamera w = (restoreMaterial w)
        \<lparr>target := Some a,
         tempMaterial := Some (materialOf (restoreMaterial w) (ident a)),
         materialOf := (materialOf (restoreMaterial w))(ident a := selectedMaterial w)\<rparr>"
    using assms(3,5) by (rule click_hit)
  have same: "click setFromCamera w = w"
    unfolding c r using assms(4) t m by simp
  show ?thesis using same assms(4) t m sel by simp
qed

theorem idempotent_reselect_witness:
  "target (run [Click rayM1] sampleWorld) = Some (Object3D 1 True []) \<and>
   click rayM1 (run [Click rayM1] sampleWorld) = run [Click rayM1] sampleWorld \<and>
   materialOf (click rayM1 (run [Click rayM1] sampleWorld)) 1 = selectedMaterial sampleWorld \<and>
   tempMaterial (click rayM1 (run [Click rayM1] sampleWorld)) = Some (sampleMaterial 1)"
proof -
  let ?w = "run [Click rayM1] sampleWorld"
  have w: "?w = click rayM1 sampleWorld" by (simp add: run_Cons run_Nil)
  have h0: "target sampleWorld = None" by (simp add: sampleWorld_fields)
  have h1: "chair ?w = Some sampleModel" by (simp add: w sample_click_M1 sampleWorld_fields)
  have h2: "target ?w = Some (Object3D 1 True [])" by (simp add: w sample_click_M1)
  have h3: "intersectObjects (rayM1 (mouse ?w)) (children sampleModel) = (5, Object3D 1 True []) # []"
    by (simp add: hits_M1)
  have s: "selectedMaterial ?w = selectedMaterial sampleWorld" by (rule run_selectedMaterial)
  from idempotent_reselect [where setFromCamera = rayM1 and events = "[Click rayM1]", OF h0 refl h1 h2 h3]
  show ?thesis
    using h2 s by (auto simp add: sampleWorld_fields)
qed

text \<open>
  Claim C2 (selection exclusivity). The highlight material is an object the controller
  creates for itself, so no part of any model carries it before the first click. From
  such a state with no selection, after any sequence of clicks, pointer moves and model
  loads at most one part has the highlight as its active material; and clicking a part
  \<open>b\<close> while another part \<open>a\<close> is selected takes the highlight off \<open>a\<close> and puts it on
  \<open>b\<close>.
\<close>

theorem selection_exclusivity:
  assumes "target w0 = None"
    and "\<forall>i. materialOf w0 i \<noteq> selectedMaterial w0"
    and "w = run events w0"
  shows "(\<forall>i j. materialOf w i = selectedMaterial w \<and> materialOf w j = selectedMaterial w \<longrightarrow> i = j) \<and>
         (\<forall>setFromCamera g a b d rest.
            chair w = Some g \<and> target w = Some a \<and>
            intersectObjects (setFromCamera (mouse w)) (children g) = (d, b) # rest \<and>
            ident b \<noteq> ident a \<longrightarrow>
              materialOf w (ident a) = selectedMaterial w \<and>
              materialOf (click setFromCamera w) (ident a) \<noteq> selectedMaterial (click setFromCamera w) \<and>
              materialOf (click setFromCamera w) (ident b) = selectedMaterial (click setFromCamera w))"
proof -
  have inv: "selection_inv (materialOf w0) w"
    unfolding assms(3) using assms(1) by (intro run_inv selection_inv_init)
  have sel: "selectedMaterial w = selectedMaterial w0"
    unfolding assms(3) by (rule run_selectedMaterial)
  have one: "i = j" if "materialOf w i = selectedMaterial w" "materialOf w j = selectedMaterial w" for i j
  proof (cases "target w")
    case None
    then show ?thesis using inv that(1) sel assms(2) by (simp add: selection_inv_def)
  next
    case (Some t)
    then have m: "materialOf w = (materialOf w0)(ident t := selectedMaterial w)"
      using inv by (simp add: selection_inv_def)
    have "i = ident t" using that(1) assms(2) sel by (subst (asm) m) (simp split: if_splits)
    moreover have "j = ident t" using that(2) assms(2) sel by (subst (asm) m) (simp split: if_splits)
    ultimately show ?thesis by simp
  qed
  have two: "materialOf w (ident a) = selectedMaterial w \<and>
             materialOf (click sfc w) (ident a) \<noteq> selectedMaterial (click sfc w) \<and>
             materialOf (click sfc w) (ident b) = selectedMaterial (click sfc w)"
    if "chair w = Some g" "target w = Some a"
      "intersectObjects (sfc (mouse w)) (children g) = (d, b) # rest" "ident b \<noteq> ident a"
    for sfc g a b d rest
  proof -
    have c: "click sfc w = (restoreMaterial w)
        \<lparr>target := Some b,
         tempMaterial := Some (materialOf (restoreMaterial w) (ident b)),
         materialOf := (materialOf (restoreMaterial w))(ident b := selectedMaterial w)\<rparr>"
      using that(1,3) by (rule click_hit)
    have r: "materialOf (restoreMaterial w) = materialOf w0"
      using inv by (rule restoreMaterial_inv)
    have "materialOf w (ident a) = selectedMaterial w"
      using inv that(2) by (simp add: selection_inv_def)
    moreover have "materialOf (click sfc w) (ident a) \<noteq> selectedMaterial (click sfc w)"
      using that(4) assms(2) sel by (simp add: c r restoreMaterial_fields)
    moreover have "materialOf (click sfc w) (ident b) = selectedMaterial (click sfc w)"
      by (simp add: c restoreMaterial_fields)
    ultimately show ?thesis by simp
  qed
  show ?thesis using one two by blast
qed

theorem selection_exclusivity_witness:
  "materialOf (run [Click rayM1] sampleWorld) 1 = selectedMaterial (run [Click rayM1] sampleWorld) \<and>
   materialOf (click rayM2 (run [Click rayM1] sampleWorld)) 1 \<noteq>
     selectedMaterial (click rayM2 (run [Click rayM1] sampleWorld)) \<and>
   materialOf (click rayM2 (run [Click rayM1] sampleWorld)) 2 =
     selectedMaterial (click rayM2 (run [Click rayM1] sampleWorld))"
proof -
  let ?w = "run [Click rayM1] sampleWorld"
  have w: "?w = click rayM1 sampleWorld" by (simp add: run_Cons run_Nil)
  have h: "chair ?w = Some sampleModel \<and> target ?w = Some (Object3D 1 True []) \<and>
        intersectObjects (rayM2 (mouse ?w)) (children sampleModel) = [(4, Object3D 2 True [])] \<and>
        ident (Object3D 2 True []) \<noteq> ident (Object3D 1 True [])"
    by (simp add: w sample_click_M1 sampleWorld_fields hits_M2)
  have "target sampleWorld = None" by (simp add: sampleWorld_fields)
  from selection_exclusivity [OF this sample_no_highlight refl, of "[Click rayM1]"]
  have "\<forall>setFromCamera g a b d rest.
            chair ?w = Some g \<and> target ?w = Some a \<and>
            intersectObjects (setFromCamera (mouse ?w)) (children g) = (d, b) # rest \<and>
            ident b \<noteq> ident a \<longrightarrow>
              materialOf ?w (ident a) = selectedMaterial ?w \<and>
              materialOf (click setFromCamera ?w) (ident a) \<noteq> selectedMaterial (click setFromCamera ?w) \<and>
              materialOf (click setFromCamera ?w) (ident b) = selectedMaterial (click setFromCamera ?w)"
    by (rule conjunct2)
  from this [rule_format, of sampleModel "Object3D 1 True []" rayM2 4 "Object3D 2 True []" "[]", OF h]
  show ?thesis by simp
qed

section \<open>Claims about the selection state\<close>

text \<open>
  Claim C1, as the code has it (selection invariant). In every state reached by clicks,
  pointer moves and the model load from a controller with no selection: if a part is the
  target, the saved slot holds the material that part had before any click, the part's
  active material is the highlight, every other part has its original material, and the
  part is the most recently selected one; if there is no target, every part has its
  original material. The saved slot is not emptied when the selection is cleared: at
  every such state it holds the original material of the most recently selected part
  (its initial content while no part has been selected), and a click on empty space that
  clears the selection of a part leaves that part's original material in the slot.
\<close>

theorem selection_invariant_reachable:
  assumes "target w0 = None" and "w = run events w0"
  shows "(case target w of
            None \<Rightarrow> materialOf w = materialOf w0
          | Some t \<Rightarrow>
              tempMaterial w = Some (materialOf w0 (ident t)) \<and>
              materialOf w (ident t) = selectedMaterial w \<and>
              materialOf w = (materialOf w0)(ident t := selectedMaterial w) \<and>
              lastSelected events w0 None = Some t) \<and>
         tempMaterial w =
           (case lastSelected events w0 None of
              None \<Rightarrow> tempMaterial w0
            | Some t \<Rightarrow> Some (materialOf w0 (ident t))) \<and>
         (\<forall>setFromCamera g t.
            chair w = Some g \<and> target w = Some t \<and>
            intersectObjects (setFromCamera (mouse w)) (children g) = [] \<longrightarrow>
              target (click setFromCamera w) = None \<and>
              tempMaterial (click setFromCamera w) = Some (materialOf w0 (ident t)) \<and>
              materialOf (click setFromCamera w) = materialOf w0)"
proof -
  have inv0: "selection_inv (materialOf w0) w0"
    using assms(1) by (rule selection_inv_init)
  then have inv: "selection_inv (materialOf w0) w"
    unfolding assms(2) by (rule run_inv)
  have "tempMaterial w0 = (case None of None \<Rightarrow> tempMaterial w0 | Some t \<Rightarrow> Some (materialOf w0 (ident t)))"
    by simp
  moreover have "case target w0 of None \<Rightarrow> True | Some t \<Rightarrow> None = Some t"
    using assms(1) by simp
  ultimately have slot:
    "tempMaterial w =
       (case lastSelected events w0 None of
          None \<Rightarrow> tempMaterial w0
        | Some t \<Rightarrow> Some (materialOf w0 (ident t))) \<and>
     (case target w of None \<Rightarrow> True | Some t \<Rightarrow> lastSelected events w0 None = Some t)"
    unfolding assms(2) using inv0 by (intro run_slot)
  have one: "case target w of
            None \<Rightarrow> materialOf w = materialOf w0
          | Some t \<Rightarrow>
              tempMaterial w = Some (materialOf w0 (ident t)) \<and>
              materialOf w (ident t) = selectedMaterial w \<and>
              materialOf w = (materialOf w0)(ident t := selectedMaterial w) \<and>
              lastSelected events w0 None = Some t"
  proof (cases "target w")
    case None
    then show ?thesis using inv by (simp add: selection_inv_def)
  next
    case (Some t)
    then have "tempMaterial w = Some (materialOf w0 (ident t))"
      and m: "materialOf w = (materialOf w0)(ident t := selectedMaterial w)"
      using inv by (simp_all add: selection_inv_def)
    moreover have "materialOf w (ident t) = selectedMaterial w" by (subst m) simp
    moreover have "lastSelected events w0 None = Some t" using slot Some by simp
    ultimately show ?thesis using Some by simp
  qed
  show ?thesis
  proof (intro conjI allI impI)
    show "case target w of
            None \<Rightarrow> materialOf w = materialOf w0
          | Some t \<Rightarrow>
              tempMaterial w = Some (materialOf w0 (ident t)) \<and>
              materialOf w (ident t) = selectedMaterial w \<and>
              materialOf w = (materialOf w0)(ident t := selectedMaterial w) \<and>
              lastSelected events w0 None = Some t"
      by (rule one)
    show "tempMaterial w =
           (case lastSelected events w0 None of
              None \<Rightarrow> tempMaterial w0
            | Some t \<Rightarrow> Some (materialOf w0 (ident t)))"
      using slot by simp
  next
    fix sfc g t
    assume h: "chair w = Some g \<and> target w = Some t \<and> intersectObjects (sfc (mouse w)) (children g) = []"
    then have a: "chair w = Some g" and b: "target w = Some t"
      and c: "intersectObjects (sfc (mouse w)) (children g) = []"
      by simp_all
    note cleared = clear_keeps_slot [where sfc = sfc, OF inv a b c]
    show "target (click sfc w) = None" using cleared by simp
    show "tempMaterial (click sfc w) = Some (materialOf w0 (ident t))" using cleared by simp
    show "materialOf (click sfc w) = materialOf w0" using cleared by simp
  qed
qed

theorem selection_invariant_reachable_witness:
  "target sampleWorld = None \<and>
   target (run [Click rayM1, Click rayM2] sampleWorld) = Some (Object3D 2 True []) \<and>
   tempMaterial (run [Click rayM1, Click rayM2] sampleWorld) = Some (materialOf sampleWorld 2) \<and>
   materialOf (run [Click rayM1, Click rayM2] sampleWorld) 2 = selectedMaterial sampleWorld \<and>
   materialOf (run [Click rayM1, Click rayM2] sampleWorld) 1 = materialOf sampleWorld 1 \<and>
   target (run [Click rayM1, Click rayM2, Click rayNone] sampleWorld) = None \<and>
   lastSelected [Click rayM1, Click rayM2, Click rayNone] sampleWorld None = Some (Object3D 2 True []) \<and>
   tempMaterial (run [Click rayM1, Click rayM2, Click rayNone] sampleWorld) = Some (materialOf sampleWorld 2) \<and>
   materialOf (run [Click rayM1, Click rayM2, Click rayNone] sampleWorld) = materialOf sampleWorld"
proof -
  let ?w2 = "run [Click rayM1, Click rayM2] sampleWorld"
  let ?w3 = "run [Click rayM1, Click rayM2, Click rayNone] sampleWorld"
  have h: "target sampleWorld = None" by (simp add: sampleWorld_fields)
  have t2: "target ?w2 = Some (Object3D 2 True [])"
    by (simp add: run_Cons run_Nil sample_click_M1_M2)
  have s2: "selectedMaterial ?w2 = selectedMaterial sampleWorld"
    by (rule run_selectedMaterial)
  have t3: "target ?w3 = None"
    by (simp add: run_Cons run_Nil sample_click_M1_M2_None)
  have a: "tempMaterial ?w2 = Some (materialOf sampleWorld 2) \<and>
           materialOf ?w2 2 = selectedMaterial sampleWorld \<and>
           materialOf ?w2 1 = materialOf sampleWorld 1"
    using selection_invariant_reachable [OF h refl, of "[Click rayM1, Click rayM2]"]
    by (simp add: t2 s2 del: lastSelected.simps)
  note inst = selection_invariant_reachable [OF h refl, of "[Click rayM1, Click rayM2, Click rayNone]"]
  from inst have "tempMaterial ?w3 =
       (case lastSelected [Click rayM1, Click rayM2, Click rayNone] sampleWorld None of
          None \<Rightarrow> tempMaterial sampleWorld
        | Some t \<Rightarrow> Some (materialOf sampleWorld (ident t)))"
    by (elim conjE)
  then have b1: "tempMaterial ?w3 = Some (materialOf sampleWorld 2)"
    unfolding sample_lastSelected by simp
  from inst have "case target ?w3 of
            None \<Rightarrow> materialOf ?w3 = materialOf sampleWorld
          | Some t \<Rightarrow>
              tempMaterial ?w3 = Some (materialOf sampleWorld (ident t)) \<and>
              materialOf ?w3 (ident t) = selectedMaterial ?w3 \<and>
              materialOf ?w3 = (materialOf sampleWorld)(ident t := selectedMaterial ?w3) \<and>
              lastSelected [Click rayM1, Click rayM2, Click rayNone] sampleWorld None = Some t"
    by (elim conjE)
  then have b2: "materialOf ?w3 = materialOf sampleWorld"
    unfolding t3 by simp
  show ?thesis using h t2 t3 a b1 b2 sample_lastSelected by simp
qed

text \<open>
  Claim C1 as stated fails in its last part: after M1 is selected and a click on empty
  space clears the selection, there is no target and the saved slot still holds M1's
  material.
\<close>

theorem stale_saved_material_counterexample:
  "target sampleWorld = None \<and> tempMaterial sampleWorld = None \<and>
   target (run [Click rayM1, Click rayNone] sampleWorld) = None \<and>
   tempMaterial (run [Click rayM1, Click rayNone] sampleWorld) \<noteq> None"
  by (simp add: run_Cons run_Nil sample_click_M1_None sampleWorld_fields)

section \<open>Claims about texture application\<close>

text \<open>
  Claim C5, as the code has it (texture application). With a target selected and the
  texture loaded, \<open>updateTexture\<close> sets both wrap modes of the texture to repeat. Let the
  engine's counter stand at \<open>n\<close> and let \<open>meshes t\<close> list the meshes of the target's
  subtree in traversal order. The material created first, number \<open>n\<close>, goes to the saved
  slot; the mesh at position \<open>j\<close> gets the material number \<open>n + 1 + j\<close>; each of them
  has the texture as its colour map. So every mesh gets a material created during the
  call, two different meshes never share one, none of them is the saved material, and
  the counter ends at \<open>n + 1 +\<close> the number of meshes. The material of every other object
  is untouched; a subtree without a mesh leaves the whole state as it was; and apart from
  the saved slot, the materials and the counter, the state is unchanged.
\<close>

theorem updateTexture_postcondition:
  assumes "target w = Some t"
    and "loadAsync url = Fulfilled loaded"
    and "texture = loaded\<lparr>wrapS := RepeatWrapping, wrapT := RepeatWrapping\<rparr>"
    and "w' = snd (updateTexture loadAsync url w)"
  shows "fst (updateTexture loadAsync url w) = Fulfilled () \<and>
         wrapS texture = RepeatWrapping \<and> wrapT texture = RepeatWrapping \<and>
         (\<forall>i\<in>set (meshes t). \<exists>j<length (meshes t).
            meshes t ! j = i \<and> materialOf w' i = MeshPhongMaterial (materialId w + 1 + j) texture) \<and>
         (distinct (meshes t) \<longrightarrow>
            (\<forall>j<length (meshes t).
               materialOf w' (meshes t ! j) = MeshPhongMaterial (materialId w + 1 + j) texture)) \<and>
         (\<forall>i\<in>set (meshes t). \<forall>i'\<in>set (meshes t). i \<noteq> i' \<longrightarrow> materialOf w' i \<noteq> materialOf w' i') \<and>
         (\<forall>i. i \<notin> set (meshes t) \<longrightarrow> materialOf w' i = materialOf w i) \<and>
         (meshes t \<noteq> [] \<longrightarrow>
            tempMaterial w' = Some (MeshPhongMaterial (materialId w) texture) \<and>
            materialId w' = materialId w + 1 + length (meshes t) \<and>
            (\<forall>i\<in>set (meshes t). materialOf w' i \<noteq> MeshPhongMaterial (materialId w) texture)) \<and>
         (meshes t = [] \<longrightarrow> w' = w) \<and>
         w' = w\<lparr>tempMaterial := tempMaterial w', materialOf := materialOf w', materialId := materialId w'\<rparr>"
proof -
  let ?xs = "preorder t"
  let ?ms = "meshes t"
  have ms: "map ident (filter isMesh ?xs) = ?ms"
    by (simp add: meshes_def)
  have len: "length (filter isMesh ?xs) = length ?ms"
    by (simp add: meshes_def)
  have w': "w' = snd (fold (applyTexture texture) ?xs (False, w))"
    using assms by (simp add: updateTexture_fulfilled)
  have frame: "w' = w\<lparr>tempMaterial := tempMaterial w', materialOf := materialOf w', materialId := materialId w'\<rparr>"
    unfolding w' by (rule fold_applyTexture_frame)
  have res: "fst (updateTexture loadAsync url w) = Fulfilled ()"
    using assms by (simp add: updateTexture_fulfilled)
  have wrap: "wrapS texture = RepeatWrapping \<and> wrapT texture = RepeatWrapping"
    using assms by simp
  show ?thesis
  proof (cases "filter isMesh ?xs = []")
    case True
    then have "w' = w" using w' by (simp add: fold_applyTexture_none)
    moreover have "?ms = []" using True by (simp add: meshes_def)
    ultimately show ?thesis using res wrap by simp
  next
    case False
    from fold_applyTexture_first_exact [OF False, of texture w] obtain w2 where
      f: "fold (applyTexture texture) ?xs (False, w) = (True, w2)" and
      t: "tempMaterial w2 = Some (MeshPhongMaterial (materialId w) texture)" and
      n: "materialId w2 = materialId w + 1 + length (filter isMesh ?xs)" and
      m: "\<And>i. if i \<in> set (map ident (filter isMesh ?xs))
             then (\<exists>j<length (map ident (filter isMesh ?xs)).
                     map ident (filter isMesh ?xs) ! j = i \<and>
                     materialOf w2 i = MeshPhongMaterial (materialId w + 1 + j) texture)
             else materialOf w2 i = materialOf w i"
      by blast
    have eq: "w2 = w'" using w' f by simp
    have ne: "?ms \<noteq> []" using False by (simp add: meshes_def)
    have a: "\<exists>j<length ?ms. ?ms ! j = i \<and> materialOf w' i = MeshPhongMaterial (materialId w + 1 + j) texture"
      if "i \<in> set ?ms" for i
      using m [of i] that unfolding ms eq by simp
    have b: "materialOf w' i = materialOf w i" if "i \<notin> set ?ms" for i
      using m [of i] that unfolding ms eq by simp
    have c: "materialOf w' i \<noteq> MeshPhongMaterial (materialId w) texture" if "i \<in> set ?ms" for i
      using a [OF that] by (auto simp add: MeshPhongMaterial_inject)
    have d: "materialOf w' (?ms ! j) = MeshPhongMaterial (materialId w + 1 + j) texture"
      if "distinct ?ms" "j < length ?ms" for j
    proof -
      have "?ms ! j \<in> set ?ms" using that(2) by simp
      from a [OF this] obtain j' where j': "j' < length ?ms" "?ms ! j' = ?ms ! j"
        "materialOf w' (?ms ! j) = MeshPhongMaterial (materialId w + 1 + j') texture"
        by blast
      have "j' = j" using that j'(1,2) by (simp add: nth_eq_iff_index_eq)
      then show ?thesis using j'(3) by simp
    qed
    have e: "materialOf w' i \<noteq> materialOf w' i'" if "i \<in> set ?ms" "i' \<in> set ?ms" "i \<noteq> i'" for i i'
    proof -
      from a [OF that(1)] obtain j where j: "?ms ! j = i"
        "materialOf w' i = MeshPhongMaterial (materialId w + 1 + j) texture" by blast
      from a [OF that(2)] obtain j' where j': "?ms ! j' = i'"
        "materialOf w' i' = MeshPhongMaterial (materialId w + 1 + j') texture" by blast
      have "j \<noteq> j'" using j(1) j'(1) that(3) by auto
      then show ?thesis using j(2) j'(2) by (simp add: MeshPhongMaterial_inject)
    qed
    have g: "materialId w' = materialId w + 1 + length ?ms"
      using n unfolding eq len .
    have t': "tempMaterial w' = Some (MeshPhongMaterial (materialId w) texture)"
      using t unfolding eq .
    show ?thesis
    proof (intro conjI)
      show "fst (updateTexture loadAsync url w) = Fulfilled ()" by (rule res)
      show "wrapS texture = RepeatWrapping" using wrap by simp
      show "wrapT texture = RepeatWrapping" using wrap by simp
      show "\<forall>i\<in>set ?ms. \<exists>j<length ?ms.
            ?ms ! j = i \<and> materialOf w' i = MeshPhongMaterial (materialId w + 1 + j) texture"
        using a by blast
      show "distinct ?ms \<longrightarrow>
            (\<forall>j<length ?ms. materialOf w' (?ms ! j) = MeshPhongMaterial (materialId w + 1 + j) texture)"
        using d by blast
      show "\<forall>i\<in>set ?ms. \<forall>i'\<in>set ?ms. i \<noteq> i' \<longrightarrow> materialOf w' i \<noteq> materialOf w' i'"
        using e by blast
      show "\<forall>i. i \<notin> set ?ms \<longrightarrow> materialOf w' i = materialOf w i"
        using b by blast
      show "?ms \<noteq> [] \<longrightarrow>
            tempMaterial w' = Some (MeshPhongMaterial (materialId w) texture) \<and>
            materialId w' = materialId w + 1 + length ?ms \<and>
            (\<forall>i\<in>set ?ms. materialOf w' i \<noteq> MeshPhongMaterial (materialId w) texture)"
        using t' g c by blast
      show "?ms = [] \<longrightarrow> w' = w" using ne by simp
      show "w' = w\<lparr>tempMaterial := tempMaterial w', materialOf := materialOf w', materialId := materialId w'\<rparr>"
        by (rule frame)
    qed
  qed
qed

theorem updateTexture_postcondition_witness:
  "target (click rayM1 nestedWorld) = Some (Object3D 1 True [Object3D 3 True []]) \<and>
   meshes (Object3D 1 True [Object3D 3 True []]) = [1, 3] \<and>
   tempMaterial (snd (updateTexture (\<lambda>url. Fulfilled woodTexture) ''img/wood_.jpg'' (click rayM1 nestedWorld))) =
     Some (MeshPhongMaterial 1000 (woodTexture\<lparr>wrapS := RepeatWrapping, wrapT := RepeatWrapping\<rparr>)) \<and>
   materialOf (snd (updateTexture (\<lambda>url. Fulfilled woodTexture) ''img/wood_.jpg'' (click rayM1 nestedWorld))) 1 =
     MeshPhongMaterial 1001 (woodTexture\<lparr>wrapS := RepeatWrapping, wrapT := RepeatWrapping\<rparr>) \<and>
   materialOf (snd (updateTexture (\<lambda>url. Fulfilled woodTexture) ''img/wood_.jpg'' (click rayM1 nestedWorld))) 3 =
     MeshPhongMaterial 1002 (woodTexture\<lparr>wrapS := RepeatWrapping, wrapT := RepeatWrapping\<rparr>) \<and>
   materialOf (snd (updateTexture (\<lambda>url. Fulfilled woodTexture) ''img/wood_.jpg'' (click rayM1 nestedWorld))) 2 =
     sampleMaterial 2 \<and>
   materialId (snd (updateTexture (\<lambda>url. Fulfilled woodTexture) ''img/wood_.jpg'' (click rayM1 nestedWorld))) = 1003"
proof -
  let ?t = "Object3D 1 True [Object3D 3 True []]"
  let ?w = "click rayM1 nestedWorld"
  let ?tex = "woodTexture\<lparr>wrapS := RepeatWrapping, wrapT := RepeatWrapping\<rparr>"
  let ?w' = "snd (updateTexture (\<lambda>url. Fulfilled woodTexture) ''img/wood_.jpg'' ?w)"
  have t: "target ?w = Some ?t" by (simp add: nested_click_M1)
  have n: "materialId ?w = 1000" by (simp add: nested_click_M1 nestedWorld_more)
  have m: "materialOf ?w 2 = sampleMaterial 2" by (simp add: nested_click_M1)
  have ms: "meshes ?t = [1, 3]" by (rule meshes_nested_M1)
  note inst = updateTexture_postcondition [where loadAsync = "\<lambda>url. Fulfilled woodTexture" and url = "''img/wood_.jpg''",
      OF t refl refl refl]
  from inst have "distinct (meshes ?t) \<longrightarrow>
            (\<forall>j<length (meshes ?t).
               materialOf ?w' (meshes ?t ! j) = MeshPhongMaterial (materialId ?w + 1 + j) ?tex)"
    by (elim conjE)
  then have all: "\<forall>j<2. materialOf ?w' ([1, 3] ! j) = MeshPhongMaterial (1000 + 1 + j) ?tex"
    unfolding ms n by simp
  have a: "materialOf ?w' 1 = MeshPhongMaterial 1001 ?tex"
    using all [rule_format, of 0] by simp
  have b: "materialOf ?w' 3 = MeshPhongMaterial 1002 ?tex"
    using all [rule_format, of 1] by simp
  from inst have "meshes ?t \<noteq> [] \<longrightarrow>
            tempMaterial ?w' = Some (MeshPhongMaterial (materialId ?w) ?tex) \<and>
            materialId ?w' = materialId ?w + 1 + length (meshes ?t) \<and>
            (\<forall>i\<in>set (meshes ?t). materialOf ?w' i \<noteq> MeshPhongMaterial (materialId ?w) ?tex)"
    by (elim conjE)
  then have c: "tempMaterial ?w' = Some (MeshPhongMaterial 1000 ?tex) \<and> materialId ?w' = 1003"
    unfolding ms n by simp
  from inst have "\<forall>i. i \<notin> set (meshes ?t) \<longrightarrow> materialOf ?w' i = materialOf ?w i"
    by (elim conjE)
  then have d: "materialOf ?w' 2 = sampleMaterial 2"
    unfolding ms using m by simp
  show ?thesis using t ms a b c d by simp
qed

text \<open>
  Claim C5 as stated fails where it says that the first mesh's material is the one saved:
  with M1 selected, after the wood texture is applied the saved slot does not hold the
  material that M1 now has.
\<close>

theorem saved_material_differs_counterexample:
  "target (click rayM1 sampleWorld) = Some (Object3D 1 True []) \<and>
   meshes (Object3D 1 True []) = [1] \<and>
   tempMaterial (snd (updateTexture (\<lambda>url. Fulfilled woodTexture) ''img/wood_.jpg'' (click rayM1 sampleWorld))) \<noteq>
     Some (materialOf (snd (updateTexture (\<lambda>url. Fulfilled woodTexture) ''img/wood_.jpg'' (click rayM1 sampleWorld))) 1)"
proof -
  let ?w' = "snd (updateTexture (\<lambda>url. Fulfilled woodTexture) ''img/wood_.jpg'' (click rayM1 sampleWorld))"
  let ?tex = "woodTexture\<lparr>wrapS := RepeatWrapping, wrapT := RepeatWrapping\<rparr>"
  have a: "tempMaterial ?w' = Some (MeshPhongMaterial 1000 ?tex)"
    by (simp add: sample_textured)
  have b: "materialOf ?w' 1 = MeshPhongMaterial 1001 ?tex"
    by (simp add: sample_textured)
  have c: "target (click rayM1 sampleWorld) = Some (Object3D 1 True [])"
    by (simp add: sample_click_M1)
  show ?thesis
    unfolding a b using c by (simp add: meshes_def MeshPhongMaterial_inject)
qed

text \<open>
  Claim C9 (texture load failure). When the texture load is rejected, \<open>updateTexture\<close>
  changes no material and no other part of the state, but the rejection is neither caught
  nor logged: the promise chain ends rejected and the console is as before. The model
  loader's chain, in contrast, catches the rejection and logs it.
\<close>

theorem updateTexture_rejection_unhandled:
  "updateTexture (\<lambda>url. Rejected e) url w = (Rejected e, w) \<and>
   console (snd (updateTexture (\<lambda>url. Rejected e) url w)) = console w \<and>
   loadModel (\<lambda>url. Rejected e) url w = (Fulfilled (), w\<lparr>console := console w @ [LogError e]\<rparr>)"
  by (simp add: updateTexture_def loadModel_def)

section \<open>Claims about pointer tracking\<close>

text \<open>
  Claim C6, as the code has it (pointer mapping). \<open>mousemove\<close> divides the event's
  viewport coordinates by the canvas's client width and height. When the canvas has a
  positive size and the coordinates lie between 0 and that size, the stored pair is
  \<open>(x / width * 2 - 1, - (y / height) * 2 + 1)\<close>, both components are in [-1, 1], the
  centre maps to (0, 0) and the top-left corner to (-1, 1); nothing but the stored pair
  changes.
\<close>

theorem mousemove_pointer_mapping:
  assumes "0 < clientWidth" and "0 < clientHeight"
    and "0 \<le> clientX e" and "clientX e \<le> of_nat clientWidth"
    and "0 \<le> clientY e" and "clientY e \<le> of_nat clientHeight"
  shows "mousemove e clientWidth clientHeight w =
           w\<lparr>mouse := (Finite (clientX e / of_nat clientWidth * 2 - 1),
                       Finite (- (clientY e / of_nat clientHeight) * 2 + 1))\<rparr> \<and>
         in_ndc_range (fst (mouse (mousemove e clientWidth clientHeight w))) \<and>
         in_ndc_range (snd (mouse (mousemove e clientWidth clientHeight w))) \<and>
         (clientX e * 2 = of_nat clientWidth \<and> clientY e * 2 = of_nat clientHeight \<longrightarrow>
            mouse (mousemove e clientWidth clientHeight w) = (Finite 0, Finite 0)) \<and>
         (clientX e = 0 \<and> clientY e = 0 \<longrightarrow>
            mouse (mousemove e clientWidth clientHeight w) = (Finite (- 1), Finite 1))"
proof -
  let ?cw = "of_nat clientWidth :: rat" and ?ch = "of_nat clientHeight :: rat"
  have cw: "0 < ?cw" and ch: "0 < ?ch" using assms(1,2) by simp_all
  have eq: "mousemove e clientWidth clientHeight w =
           w\<lparr>mouse := (Finite (clientX e / ?cw * 2 - 1), Finite (- (clientY e / ?ch) * 2 + 1))\<rparr>"
    using cw ch by (simp add: mousemove_def js_div_def)
  have x0: "0 \<le> clientX e / ?cw" using assms(3) cw by simp
  have x1: "clientX e / ?cw \<le> 1" using assms(4) cw by simp
  have y0: "0 \<le> clientY e / ?ch" using assms(5) ch by simp
  have y1: "clientY e / ?ch \<le> 1" using assms(6) ch by simp
  have rx: "in_ndc_range (Finite (clientX e / ?cw * 2 - 1))"
    using x0 x1 by (rule ndc_range_x)
  have ry: "in_ndc_range (Finite (- (clientY e / ?ch) * 2 + 1))"
    using y0 y1 by (rule ndc_range_y)
  have centre: "clientX e / ?cw * 2 - 1 = 0 \<and> - (clientY e / ?ch) * 2 + 1 = 0"
    if "clientX e * 2 = ?cw" "clientY e * 2 = ?ch"
  proof -
    have "clientX e / ?cw * 2 = (clientX e * 2) / ?cw" by simp
    also have "\<dots> = 1" using that(1) cw by simp
    finally have a: "clientX e / ?cw * 2 = 1" .
    have "clientY e / ?ch * 2 = (clientY e * 2) / ?ch" by simp
    also have "\<dots> = 1" using that(2) ch by simp
    finally have b: "clientY e / ?ch * 2 = 1" .
    show ?thesis using a b by simp
  qed
  show ?thesis
    unfolding eq using rx ry centre by simp
qed

theorem mousemove_pointer_mapping_witness:
  "mouse (mousemove \<lparr>clientX = 100, clientY = 50\<rparr> 200 100 sampleWorld) = (Finite 0, Finite 0) \<and>
   mouse (mousemove \<lparr>clientX = 0, clientY = 0\<rparr> 200 100 sampleWorld) = (Finite (- 1), Finite 1) \<and>
   in_ndc_range (fst (mouse (mousemove \<lparr>clientX = 150, clientY = 100\<rparr> 200 100 sampleWorld))) \<and>
   in_ndc_range (snd (mouse (mousemove \<lparr>clientX = 150, clientY = 100\<rparr> 200 100 sampleWorld)))"
  using mousemove_pointer_mapping [of 200 100 "\<lparr>clientX = 100, clientY = 50\<rparr>" sampleWorld]
    mousemove_pointer_mapping [of 200 100 "\<lparr>clientX = 0, clientY = 0\<rparr>" sampleWorld]
    mousemove_pointer_mapping [of 200 100 "\<lparr>clientX = 150, clientY = 100\<rparr>" sampleWorld]
  by auto

text \<open>
  Claim C6 as stated fails for a pointer event whose viewport coordinate exceeds the
  canvas's width: at x = 300 on a canvas 200 wide the stored x is 2.
\<close>

theorem mousemove_out_of_range_counterexample:
  "\<not> in_ndc_range (fst (mouse (mousemove \<lparr>clientX = 300, clientY = 50\<rparr> 200 100 sampleWorld)))"
  by (simp add: mousemove_def js_div_def in_ndc_range_def)

end
